theory Spec2Isabelle
  imports Complex_Main "HOL-Library.AList" "HOL-Library.Sublist"
begin

section \<open>JavaScript values used by the sources\<close>

text \<open>
  A plain JavaScript object used as a dictionary is an association list in the order in
  which \<open>for (const k in obj)\<close> enumerates its keys. For keys that are not canonical
  array indices this is insertion order: an assignment to a present key keeps its place, an
  assignment to a new key appends. \<^const>\<open>AList.update\<close> is exactly that assignment and
  \<^const>\<open>map_of\<close> the property read. Keys that name a property of \<open>Object.prototype\<close>
  (\<open>constructor\<close>, \<open>toString\<close>, ...) are outside this model.
\<close>

type_synonym 'v jsobject = "(string \<times> 'v) list"

text \<open>\<open>Array.prototype.join(',')\<close> and \<open>String.prototype.split(',')\<close>.\<close>

fun join :: "string list \<Rightarrow> string" where
  "join [] = []"
| "join [x] = x"
| "join (x # y # ys) = x @ CHR '','' # join (y # ys)"

fun split :: "string \<Rightarrow> string list" where
  "split [] = [[]]"
| "split (c # cs) =
     (if c = CHR '','' then [] # split cs
      else (case split cs of [] \<Rightarrow> [[c]] | t # ts \<Rightarrow> (c # t) # ts))"

text \<open>Decimal rendering of a non-negative integer inside a template string.\<close>

fun string_of_nat :: "nat \<Rightarrow> string" where
  "string_of_nat n =
     (if n < 10 then [char_of (48 + n)]
      else string_of_nat (n div 10) @ [char_of (48 + n mod 10)])"

declare string_of_nat.simps [simp del]

section \<open>Data model (\<open>src/types.ts\<close>)\<close>

datatype RequestSource = xhr | fetch

record NetworkRequest =
  req_id :: string
  req_url :: string
  req_method :: string
  req_headers :: "string jsobject"
  req_body :: "string option"
  req_timestamp :: real
  req_source :: RequestSource

datatype ActionType = api | ui | workflow

record RequestInit =
  init_method :: string
  init_headers :: "string jsobject"
  init_body :: "string option"

record Action =
  act_id :: string
  act_type :: ActionType
  act_description :: string
  act_url :: "string option"
  act_options :: "RequestInit option"
  act_selector :: "string option"
  act_event :: "string option"

record Workflow =
  wf_id :: string
  wf_name :: string
  wf_description :: string
  wf_actions :: "Action list"
  wf_frequency :: nat
  wf_lastExecuted :: "int option"

record Prediction =
  pred_confidence :: real
  pred_action :: Action
  pred_context :: string

section \<open>Persistence (\<open>utils/storage.ts\<close>)\<close>

text \<open>
  The four \<open>localStorage\<close> entries, already parsed. A read that fails yields the empty
  collection in the source; here every read succeeds on the stored value.
\<close>

record Storage =
  request_history :: "NetworkRequest list"
  pattern_store :: "nat jsobject"
  workflow_store :: "Workflow jsobject"
  action_store :: "Action jsobject"

definition getWorkflowById :: "Storage \<Rightarrow> string \<Rightarrow> Workflow option" where
  "getWorkflowById st i = map_of (workflow_store st) i"

definition saveWorkflow_storage :: "Workflow \<Rightarrow> Storage \<Rightarrow> Storage" where
  "saveWorkflow_storage w st =
     st\<lparr>workflow_store := AList.update (wf_id w) w (workflow_store st)\<rparr>"


section \<open>Workflow recording and replay (\<open>core/WorkflowAutomation\<close>)\<close>

record WorkflowAutomation =
  workflows :: "Workflow jsobject"
  detectingWorkflow :: bool
  currentWorkflow :: "Action list"
  executionQueue :: "string list"
  isExecuting :: bool

definition startDetection :: "WorkflowAutomation \<Rightarrow> WorkflowAutomation" where
  "startDetection wa =
     (if detectingWorkflow wa then wa
      else wa\<lparr>detectingWorkflow := True, currentWorkflow := []\<rparr>)"

definition addAction :: "Action \<Rightarrow> WorkflowAutomation \<Rightarrow> WorkflowAutomation" where
  "addAction a wa =
     (if \<not> detectingWorkflow wa then wa
      else wa\<lparr>currentWorkflow := currentWorkflow wa @ [a]\<rparr>)"

text \<open>
  The three characters between the two descriptions of the template, as the bytes the
  source file stores for them.
\<close>

definition arrow :: string where
  "arrow = [CHR 0xC3, CHR 0xA2, CHR 0xE2, CHR 0x80, CHR 0xA0, CHR 0xE2, CHR 0x80, CHR 0x99]"

text \<open>
  \<open>createWorkflow\<close>; the fresh identifier returned by \<open>generateId()\<close> and the clock
  reading \<open>Date.now()\<close> are arguments.
\<close>

definition createWorkflow ::
  "string \<Rightarrow> int \<Rightarrow> WorkflowAutomation \<Rightarrow> Action list \<Rightarrow> Workflow" where
  "createWorkflow newId now wa actions =
     (let name = ''Workflow '' @ string_of_nat (length (workflows wa) + 1);
          description =
            (if length actions > 0
             then act_description (hd actions) @ '' '' @ arrow @ '' '' @ act_description (last actions)
             else name)
      in \<lparr>wf_id = newId, wf_name = name, wf_description = description,
          wf_actions = actions, wf_frequency = 1, wf_lastExecuted = Some now\<rparr>)"

definition saveWorkflow ::
  "Workflow \<Rightarrow> Storage \<times> WorkflowAutomation \<Rightarrow> Storage \<times> WorkflowAutomation" where
  "saveWorkflow w = (\<lambda>(st, wa).
     (saveWorkflow_storage w st, wa\<lparr>workflows := AList.update (wf_id w) w (workflows wa)\<rparr>))"

definition stopDetection ::
  "string \<Rightarrow> int \<Rightarrow> Storage \<times> WorkflowAutomation \<Rightarrow>
     Workflow option \<times> Storage \<times> WorkflowAutomation" where
  "stopDetection newId now = (\<lambda>(st, wa).
     if \<not> detectingWorkflow wa then (None, st, wa)
     else
       let wa1 = wa\<lparr>detectingWorkflow := False\<rparr> in
       if length (currentWorkflow wa1) \<ge> 2 then
         let w = createWorkflow newId now wa1 (currentWorkflow wa1)
         in (Some w, saveWorkflow w (st, wa1))
       else (None, st, wa1\<lparr>currentWorkflow := []\<rparr>))"









section \<open>String similarity (\<open>utils/helpers.ts\<close>)\<close>

text \<open>
  Strings are lists of code units of any type \<open>'c\<close>. The matrix is a list of rows, written
  cell by cell as the three loops of the source do.
\<close>

definition matrix_set :: "nat list list \<Rightarrow> nat \<Rightarrow> nat \<Rightarrow> nat \<Rightarrow> nat list list" where
  "matrix_set m i j v = m[i := (m ! i)[j := v]]"

definition fill_cell :: "'c list \<Rightarrow> 'c list \<Rightarrow> nat \<Rightarrow> nat \<Rightarrow> nat list list \<Rightarrow> nat list list" where
  "fill_cell a b i j m =
     (let cost = (if a ! (i - 1) = b ! (j - 1) then 0 else 1)
      in matrix_set m i j
           (min (m ! (i - 1) ! j + 1) (min (m ! i ! (j - 1) + 1) (m ! (i - 1) ! (j - 1) + cost))))"

definition levenshtein_matrix :: "'c list \<Rightarrow> 'c list \<Rightarrow> nat list list" where
  "levenshtein_matrix a b =
     (let aLength = length a; bLength = length b;
          m0 = replicate (aLength + 1) (replicate (bLength + 1) 0);
          m1 = fold (\<lambda>i m. matrix_set m i 0 i) [0..<aLength + 1] m0;
          m2 = fold (\<lambda>j m. matrix_set m 0 j j) [0..<bLength + 1] m1
      in fold (\<lambda>i m. fold (\<lambda>j m. fill_cell a b i j m) [1..<bLength + 1] m) [1..<aLength + 1] m2)"

definition stringSimilarity :: "'c list \<Rightarrow> 'c list \<Rightarrow> real" where
  "stringSimilarity a b =
     (if a = b then 1
      else if length a = 0 \<or> length b = 0 then 0
      else 1 - real (levenshtein_matrix a b ! length a ! length b) / real (max (length a) (length b)))"

section \<open>Pattern engine (\<open>core/PatternEngine.ts\<close>)\<close>

text \<open>
  Numbers are reals: the rounding of IEEE doubles is not represented. An optional numeric
  option is absent or a natural number; \<open>x || d\<close> takes the default for an absent and for a
  zero value.
\<close>

record CellOptions =
  maxPatternLength :: "nat option"
  maxStoredPatterns :: "nat option"

definition or_default :: "nat option \<Rightarrow> nat \<Rightarrow> nat" where
  "or_default x d = (case x of None \<Rightarrow> d | Some n \<Rightarrow> if n = 0 then d else n)"

text \<open>
  The engine. \<open>patternAnalysisTimer\<close> tells whether the field holds a timer handle,
  \<open>timerPending\<close> whether that timeout is still armed in the host, and \<open>notified\<close> is the
  sequence of predictions delivered to the registered callbacks.
\<close>

record PatternEngine =
  options :: CellOptions
  currentSequence :: "NetworkRequest list"
  isRunning :: bool
  actionCache :: "Action jsobject"
  patternAnalysisTimer :: bool
  timerPending :: bool
  notified :: "Prediction list"

definition saveRequest :: "NetworkRequest \<Rightarrow> nat \<Rightarrow> Storage \<Rightarrow> Storage" where
  "saveRequest request maxItems st =
     (let history = request_history st @ [request];
          history' = (if length history > maxItems
                      then drop (length history - maxItems) history else history)
      in st\<lparr>request_history := history'\<rparr>)"

definition savePattern :: "string list \<Rightarrow> nat \<Rightarrow> Storage \<Rightarrow> Storage" where
  "savePattern pattern frequency st =
     (let patterns = pattern_store st; patternKey = join pattern
      in st\<lparr>pattern_store :=
              (case map_of patterns patternKey of
                 Some c \<Rightarrow> if c \<noteq> 0 then AList.update patternKey (c + frequency) patterns
                           else AList.update patternKey frequency patterns
               | None \<Rightarrow> AList.update patternKey frequency patterns)\<rparr>)"

definition saveAction :: "Action \<Rightarrow> Storage \<Rightarrow> Storage" where
  "saveAction a st = st\<lparr>action_store := AList.update (act_id a) a (action_store st)\<rparr>"

definition calculateRecencyFactor :: "real \<Rightarrow> PatternEngine \<Rightarrow> real" where
  "calculateRecencyFactor now eng =
     (if length (currentSequence eng) = 0 then 0
      else
        let timestamps = map req_timestamp (currentSequence eng);
            avgTime = foldl (\<lambda>sum time. sum + time) 0 timestamps / real (length timestamps);
            timeDiff = now - avgTime
        in exp (- timeDiff / 3600000))"

definition calculateConfidence :: "real \<Rightarrow> PatternEngine \<Rightarrow> string \<Rightarrow> nat \<Rightarrow> real" where
  "calculateConfidence now eng pattern frequency =
     (let frequencyFactor = min (real frequency / 10) 1;
          lengthFactor = min (real (length (split pattern)) / 10) 1;
          recencyFactor = calculateRecencyFactor now eng
      in frequencyFactor * 0.6 + lengthFactor * 0.3 + recencyFactor * 0.1)"

definition getContextDescription :: "PatternEngine \<Rightarrow> string" where
  "getContextDescription eng =
     (if length (currentSequence eng) = 0 then []
      else let lastRequest = last (currentSequence eng)
           in ''After '' @ req_method lastRequest @ '' request to '' @ req_url lastRequest)"

text \<open>
  \<open>createPrediction\<close>. Its first argument may be \<open>undefined\<close> (an array read past the
  end), here \<open>None\<close>: as a property key it is the string \<open>undefined\<close>, and no request id
  equals it.
\<close>

definition property_key :: "string option \<Rightarrow> string" where
  "property_key k = (case k of None \<Rightarrow> ''undefined'' | Some s \<Rightarrow> s)"

definition createPrediction ::
  "string option \<Rightarrow> real \<Rightarrow> Storage \<times> PatternEngine \<Rightarrow>
     Prediction option \<times> Storage \<times> PatternEngine" where
  "createPrediction actionId conf = (\<lambda>(st, eng).
     case map_of (actionCache eng) (property_key actionId) of
       Some a \<Rightarrow>
         (Some \<lparr>pred_confidence = conf, pred_action = a,
                pred_context = getContextDescription eng\<rparr>, st, eng)
     | None \<Rightarrow>
         (case actionId of
            None \<Rightarrow> (None, st, eng)
          | Some aid \<Rightarrow>
              (case find (\<lambda>req. req_id req = aid) (request_history st) of
                 None \<Rightarrow> (None, st, eng)
               | Some request \<Rightarrow>
                   let a = \<lparr>act_id = aid, act_type = api,
                            act_description = req_method request @ '' '' @ req_url request,
                            act_url = Some (req_url request),
                            act_options = Some \<lparr>init_method = req_method request,
                                                init_headers = req_headers request,
                                                init_body = req_body request\<rparr>,
                            act_selector = None, act_event = None\<rparr>;
                       eng' = eng\<lparr>actionCache := AList.update aid a (actionCache eng)\<rparr>
                   in (Some \<lparr>pred_confidence = conf, pred_action = a,
                             pred_context = getContextDescription eng'\<rparr>,
                       saveAction a st, eng'))))"

definition notifyPredictionCallbacks :: "Prediction \<Rightarrow> PatternEngine \<Rightarrow> PatternEngine" where
  "notifyPredictionCallbacks p eng = eng\<lparr>notified := notified eng @ [p]\<rparr>"

text \<open>\<open>arr[i]\<close>, \<open>undefined\<close> past the end.\<close>

definition nth_opt :: "'a list \<Rightarrow> nat \<Rightarrow> 'a option" where
  "nth_opt xs i = (if i < length xs then Some (xs ! i) else None)"

text \<open>
  The inner loop of \<open>predictNextAction\<close> over the stored patterns, for one pattern length.
  It stops at the first stored key that yields a prediction. One clock reading serves the
  whole call.
\<close>

fun scanPatterns ::
  "real \<Rightarrow> nat \<Rightarrow> string \<Rightarrow> Storage \<times> PatternEngine \<Rightarrow> nat jsobject \<Rightarrow>
     (Prediction \<times> Storage \<times> PatternEngine) option" where
  "scanPatterns now patternLength lookupPattern w [] = None"
| "scanPatterns now patternLength lookupPattern w ((pattern, frequency) # rest) =
     (if prefix lookupPattern pattern \<and> pattern \<noteq> lookupPattern then
        let conf = calculateConfidence now (snd w) pattern frequency in
        if conf \<ge> 0.3 then
          let nextActionId = nth_opt (split pattern) patternLength in
          (case createPrediction nextActionId conf w of
             (Some prediction, w') \<Rightarrow> Some (prediction, w')
           | (None, w') \<Rightarrow> scanPatterns now patternLength lookupPattern w rest)
        else scanPatterns now patternLength lookupPattern w rest
      else scanPatterns now patternLength lookupPattern w rest)"

text \<open>\<open>ids.slice(-n)\<close> for \<open>n > 0\<close>: the last \<open>n\<close> elements.\<close>

definition slice_last :: "nat \<Rightarrow> 'a list \<Rightarrow> 'a list" where
  "slice_last n xs = drop (length xs - n) xs"

text \<open>The outer loop: pattern lengths from the given one down to 2.\<close>

fun searchPatterns ::
  "real \<Rightarrow> Storage \<times> PatternEngine \<Rightarrow> nat jsobject \<Rightarrow> string list \<Rightarrow> nat \<Rightarrow>
     (Prediction \<times> Storage \<times> PatternEngine) option" where
  "searchPatterns now w patterns sequenceIds patternLength =
     (if patternLength \<ge> 2 then
        (case scanPatterns now patternLength (join (slice_last patternLength sequenceIds)) w patterns of
           Some r \<Rightarrow> Some r
         | None \<Rightarrow> searchPatterns now w patterns sequenceIds (patternLength - 1))
      else None)"

declare searchPatterns.simps [simp del]

fun findIndex :: "('a \<Rightarrow> bool) \<Rightarrow> 'a list \<Rightarrow> nat option" where
  "findIndex P [] = None"
| "findIndex P (x # xs) =
     (if P x then Some 0 else map_option Suc (findIndex P xs))"

text \<open>\<open>if (!t[k]) t[k] = 0; t[k]++\<close> on a tally object.\<close>

definition bump :: "string \<Rightarrow> nat jsobject \<Rightarrow> nat jsobject" where
  "bump k t = (case map_of t k of
                 None \<Rightarrow> AList.update k 1 t
               | Some c \<Rightarrow> AList.update k (c + 1) t)"

definition totalSimilarity :: "NetworkRequest \<Rightarrow> NetworkRequest \<Rightarrow> real" where
  "totalSimilarity request lastRequest =
     (let urlSimilarity = stringSimilarity (req_url request) (req_url lastRequest);
          methodSimilarity = (if req_method request = req_method lastRequest then 1 else 0)
      in urlSimilarity * 0.8 + methodSimilarity * 0.2)"

definition similarRequests :: "NetworkRequest list \<Rightarrow> NetworkRequest \<Rightarrow> NetworkRequest list" where
  "similarRequests history lastRequest =
     filter (\<lambda>request. req_id request \<noteq> req_id lastRequest \<and>
                       totalSimilarity request lastRequest > 0.8) history"

definition tallyFollower ::
  "NetworkRequest list \<Rightarrow> NetworkRequest \<Rightarrow> nat jsobject \<times> nat \<Rightarrow> nat jsobject \<times> nat" where
  "tallyFollower history similarRequest = (\<lambda>(nextActions, totalOccurrences).
     case findIndex (\<lambda>req. req_id req = req_id similarRequest) history of
       None \<Rightarrow> (nextActions, totalOccurrences)
     | Some index \<Rightarrow>
         if index < length history - 1 then
           let nextRequest = history ! (index + 1)
           in (bump (req_id nextRequest) nextActions, totalOccurrences + 1)
         else (nextActions, totalOccurrences))"

definition bestAction :: "nat jsobject \<Rightarrow> string option \<times> nat" where
  "bestAction nextActions =
     fold (\<lambda>(actionId, c) (bestActionId, bestCount).
             if c > bestCount then (Some actionId, c) else (bestActionId, bestCount))
          nextActions (None, 0)"

definition fuzzyMatchAction :: "Storage \<times> PatternEngine \<Rightarrow> Storage \<times> PatternEngine" where
  "fuzzyMatchAction = (\<lambda>(st, eng).
     if length (currentSequence eng) < 2 then (st, eng)
     else
       let lastRequest = last (currentSequence eng);
           history = request_history st;
           similar = similarRequests history lastRequest
       in if length similar = 0 then (st, eng)
          else
            let (nextActions, totalOccurrences) = fold (tallyFollower history) similar ([], 0)
            in if totalOccurrences = 0 then (st, eng)
               else
                 (case bestAction nextActions of
                    (None, bestCount) \<Rightarrow> (st, eng)
                  | (Some bestActionId, bestCount) \<Rightarrow>
                      if bestActionId = [] then (st, eng)
                      else
                        (case createPrediction (Some bestActionId)
                                (real bestCount / real totalOccurrences) (st, eng) of
                           (Some prediction, st', eng') \<Rightarrow>
                             (st', notifyPredictionCallbacks prediction eng')
                         | (None, st', eng') \<Rightarrow> (st, eng))))"

definition predictNextAction :: "real \<Rightarrow> Storage \<times> PatternEngine \<Rightarrow> Storage \<times> PatternEngine" where
  "predictNextAction now = (\<lambda>(st, eng).
     if length (currentSequence eng) < 2 then (st, eng)
     else
       let patterns = pattern_store st;
           sequenceIds = map req_id (currentSequence eng);
           maxLen = or_default (maxPatternLength (options eng)) 10
       in (case searchPatterns now (st, eng) patterns sequenceIds
                  (min (length (currentSequence eng) - 1) maxLen) of
             Some (prediction, st', eng') \<Rightarrow> (st', notifyPredictionCallbacks prediction eng')
           | None \<Rightarrow> fuzzyMatchAction (st, eng)))"

text \<open>
  The tally of \<open>analyzeHistoricalPatterns\<close>: for every length from 2 to the maximum, every
  window of that length over the history.
\<close>

definition windowKey :: "NetworkRequest list \<Rightarrow> nat \<Rightarrow> nat \<Rightarrow> string" where
  "windowKey history i patternLength =
     join (map req_id (take patternLength (drop i history)))"

definition tallyWindows :: "NetworkRequest list \<Rightarrow> nat \<Rightarrow> nat jsobject" where
  "tallyWindows history maxLen =
     fold (\<lambda>patternLength patterns.
             fold (\<lambda>i patterns. bump (windowKey history i patternLength) patterns)
                  (if patternLength \<le> length history
                   then [0..<length history - patternLength + 1] else [])
                  patterns)
          [2..<maxLen + 1] []"

definition analyzeHistoricalPatterns :: "Storage \<times> PatternEngine \<Rightarrow> Storage" where
  "analyzeHistoricalPatterns = (\<lambda>(st, eng).
     if \<not> isRunning eng then st
     else
       let history = request_history st;
           patterns = tallyWindows history (or_default (maxPatternLength (options eng)) 10)
       in fold (\<lambda>(pattern, c) st. savePattern (split pattern) c st) patterns st)"

definition start :: "Storage \<times> PatternEngine \<Rightarrow> Storage \<times> PatternEngine" where
  "start = (\<lambda>(st, eng).
     if isRunning eng then (st, eng)
     else let eng' = eng\<lparr>isRunning := True\<rparr>
          in (analyzeHistoricalPatterns (st, eng'), eng'))"

definition stop :: "PatternEngine \<Rightarrow> PatternEngine" where
  "stop eng =
     (if \<not> isRunning eng then eng
      else let eng' = eng\<lparr>isRunning := False\<rparr>
           in if patternAnalysisTimer eng' then eng'\<lparr>timerPending := False\<rparr> else eng')"

definition addRequest ::
  "real \<Rightarrow> NetworkRequest \<Rightarrow> Storage \<times> PatternEngine \<Rightarrow> Storage \<times> PatternEngine" where
  "addRequest now request = (\<lambda>(st, eng).
     if \<not> isRunning eng then (st, eng)
     else
       let st1 = saveRequest request (or_default (maxStoredPatterns (options eng)) 1000) st;
           eng1 = eng\<lparr>currentSequence := currentSequence eng @ [request]\<rparr>;
           maxLength = or_default (maxPatternLength (options eng1)) 10;
           eng2 = (if length (currentSequence eng1) > maxLength
                   then eng1\<lparr>currentSequence := tl (currentSequence eng1)\<rparr> else eng1);
           (st2, eng3) = predictNextAction now (st1, eng2)
       in if \<not> patternAnalysisTimer eng3
          then (st2, eng3\<lparr>patternAnalysisTimer := True, timerPending := True\<rparr>)
          else (st2, eng3))"

text \<open>The engine as the constructor leaves it, for given options and stored actions.\<close>

definition newPatternEngine :: "CellOptions \<Rightarrow> Storage \<Rightarrow> PatternEngine" where
  "newPatternEngine opts st =
     \<lparr>options = opts, currentSequence = [], isRunning = False,
      actionCache = action_store st, patternAnalysisTimer = False,
      timerPending = False, notified = []\<rparr>"

section \<open>Repetition watcher (\<open>standalone-cell.js\<close>)\<close>

record CellRequest =
  creq_id :: string
  creq_url :: string
  creq_method :: string
  creq_timestamp :: int
  creq_signature :: string

text \<open>
  The table \<open>this.patterns\<close> holds two kinds of entries under string keys: per-signature
  follower statistics written by \<open>analyzePatterns\<close>, and per-pair repetition counters
  written by \<open>checkForRepetitivePatterns\<close>.
\<close>

datatype PatternEntry =
    Followers (total: nat) (followers: "nat jsobject")
  | Repetition (count: nat) (lastSuggested: int) (threshold: nat) (steps: "CellRequest list")

text \<open>
  \<open>checkForRepetitivePatterns\<close>, with the reading of \<open>Date.now()\<close> as an argument. The
  second component is the call of \<open>suggestAutomation(current, next, count)\<close>, if made.
  When the pair key holds a follower entry, \<open>count\<close> is \<open>undefined\<close>, the increment makes it
  \<open>NaN\<close> and the comparison with the missing threshold is false: nothing is suggested.
\<close>

definition checkForRepetitivePatterns ::
  "int \<Rightarrow> CellRequest \<Rightarrow> CellRequest \<Rightarrow> PatternEntry jsobject \<Rightarrow>
     PatternEntry jsobject \<times> (CellRequest \<times> CellRequest \<times> nat) option" where
  "checkForRepetitivePatterns now current next patterns =
     (if creq_url current = [] \<or> creq_url next = [] then (patterns, None)
      else if creq_signature current = creq_signature next then (patterns, None)
      else
        let patternKey = creq_signature current @ ''->'' @ creq_signature next;
            patterns1 = (case map_of patterns patternKey of
                           None \<Rightarrow> AList.update patternKey (Repetition 0 0 3 [current, next]) patterns
                         | Some e \<Rightarrow> patterns)
        in (case map_of patterns1 patternKey of
              Some (Repetition c l t s) \<Rightarrow>
                let patterns2 = AList.update patternKey (Repetition (c + 1) l t s) patterns1
                in if c + 1 \<ge> t then
                     if now - l > 3600000
                     then (AList.update patternKey (Repetition (c + 1) now t s) patterns2,
                           Some (current, next, c + 1))
                     else (patterns2, None)
                   else (patterns2, None)
            | Some (Followers n f) \<Rightarrow> (patterns1, None)
            | None \<Rightarrow> (patterns1, None)))"

text \<open>
  The calls made for one pair at the successive clock readings \<open>ts\<close>, as the loop of
  \<open>analyzePatterns\<close> makes them each time it meets the pair; the result lists, call by
  call, what was suggested.
\<close>

fun recurrences ::
  "CellRequest \<Rightarrow> CellRequest \<Rightarrow> int list \<Rightarrow> PatternEntry jsobject \<Rightarrow>
     (CellRequest \<times> CellRequest \<times> nat) option list" where
  "recurrences current next [] patterns = []"
| "recurrences current next (now # ts) patterns =
     (case checkForRepetitivePatterns now current next patterns of
        (patterns', out) \<Rightarrow> out # recurrences current next ts patterns')"

section \<open>Notions used in the statements\<close>


text \<open>The key of a transition pair in \<open>this.patterns\<close>.\<close>

definition pairKey :: "CellRequest \<Rightarrow> CellRequest \<Rightarrow> string" where
  "pairKey current next = creq_signature current @ ''->'' @ creq_signature next"

text \<open>
  The number of occurrences of a key in one pass over the history, as the specification
  words it: the windows, of every length from 2 to the maximum, whose ids joined by commas
  are the key.
\<close>

definition occurrences :: "NetworkRequest list \<Rightarrow> nat \<Rightarrow> string \<Rightarrow> nat" where
  "occurrences history maxLen k =
     sum_list (map (\<lambda>n. length (filter (\<lambda>i. windowKey history i n = k)
                                    [0..<length history + 1 - n]))
                   [2..<maxLen + 1])"

text \<open>The count an object holds for a key, 0 when the key is absent.\<close>

definition storedCount :: "nat jsobject \<Rightarrow> string \<Rightarrow> nat" where
  "storedCount t k = (case map_of t k of None \<Rightarrow> 0 | Some c \<Rightarrow> c)"



text \<open>
  The edit distance between the first \<open>i\<close> units of \<open>a\<close> and the first \<open>j\<close> units of
  \<open>b\<close>, by the recurrence of Levenshtein: the value the matrix is shown to hold in cell
  \<open>(i, j)\<close>.
\<close>

fun distance :: "'c list \<Rightarrow> 'c list \<Rightarrow> nat \<Rightarrow> nat \<Rightarrow> nat" where
  "distance a b 0 j = j"
| "distance a b (Suc i) 0 = Suc i"
| "distance a b (Suc i) (Suc j) =
     min (distance a b i (Suc j) + 1)
         (min (distance a b (Suc i) j + 1)
              (distance a b i j + (if a ! i = b ! j then 0 else 1)))"

text \<open>
  The loop invariant of the matrix: it has the shape \<open>(length a + 1) \<times> (length b + 1)\<close>,
  and every cell of the first row, of the first column, of a row before \<open>i\<close>, and of row
  \<open>i\<close> before column \<open>j\<close>, holds the edit distance of its prefixes.
\<close>

definition filled :: "'c list \<Rightarrow> 'c list \<Rightarrow> nat \<Rightarrow> nat \<Rightarrow> nat list list \<Rightarrow> bool" where
  "filled a b i j m =
     (length m = length a + 1 \<and>
      (\<forall>r. r \<le> length a \<longrightarrow> length (m ! r) = length b + 1) \<and>
      (\<forall>r c. r \<le> length a \<and> c \<le> length b \<and> (r = 0 \<or> c = 0 \<or> r < i \<or> (r = i \<and> c < j))
             \<longrightarrow> m ! r ! c = distance a b r c))"

text \<open>The shape of the matrix alone.\<close>

definition shaped :: "'c list \<Rightarrow> 'c list \<Rightarrow> nat list list \<Rightarrow> bool" where
  "shaped a b m =
     (length m = length a + 1 \<and> (\<forall>r. r \<le> length a \<longrightarrow> length (m ! r) = length b + 1))"

text \<open>
  The fuzzy fallback in the words of the specification. The url similarity is the
  normalised edit-distance similarity (two empty strings are equal, with similarity 1); an
  event is kept when it is not the last event of the window and its score exceeds 0.8; the
  tally of a continuation id counts the log positions of kept events whose successor in
  the log has that id.
\<close>

definition editSimilarity :: "'c list \<Rightarrow> 'c list \<Rightarrow> real" where
  "editSimilarity u v =
     (if u = [] \<and> v = [] then 1
      else 1 - real (distance u v (length u) (length v)) / real (max (length u) (length v)))"

definition keeps :: "NetworkRequest \<Rightarrow> NetworkRequest \<Rightarrow> bool" where
  "keeps lastRequest e =
     (req_id e \<noteq> req_id lastRequest \<and>
      0.8 * editSimilarity (req_url e) (req_url lastRequest) +
      0.2 * (if req_method e = req_method lastRequest then 1 else 0) > 0.8)"

definition followerTally :: "NetworkRequest list \<Rightarrow> NetworkRequest \<Rightarrow> string \<Rightarrow> nat" where
  "followerTally history lastRequest k =
     length (filter (\<lambda>i. Suc i < length history \<and> keeps lastRequest (history ! i) \<and>
                          req_id (history ! Suc i) = k)
                    [0..<length history])"

definition followerTotal :: "NetworkRequest list \<Rightarrow> NetworkRequest \<Rightarrow> nat" where
  "followerTotal history lastRequest =
     length (filter (\<lambda>i. Suc i < length history \<and> keeps lastRequest (history ! i))
                    [0..<length history])"





section \<open>Concrete inputs\<close>

definition apiAction :: "string \<Rightarrow> string \<Rightarrow> Action" where
  "apiAction i u =
     \<lparr>act_id = i, act_type = api, act_description = ''GET '' @ u, act_url = Some u,
      act_options = None, act_selector = None, act_event = None\<rparr>"

definition getRequest :: "string \<Rightarrow> string \<Rightarrow> real \<Rightarrow> NetworkRequest" where
  "getRequest i u t =
     \<lparr>req_id = i, req_url = u, req_method = ''GET'', req_headers = [], req_body = None,
      req_timestamp = t, req_source = fetch\<rparr>"

definition emptyStorage :: Storage where
  "emptyStorage = \<lparr>request_history = [], pattern_store = [], workflow_store = [], action_store = []\<rparr>"

definition idleAutomation :: WorkflowAutomation where
  "idleAutomation =
     \<lparr>workflows = [], detectingWorkflow = False, currentWorkflow = [],
      executionQueue = [], isExecuting = False\<rparr>"

definition defaultOptions :: CellOptions where
  "defaultOptions = \<lparr>maxPatternLength = Some 10, maxStoredPatterns = Some 1000\<rparr>"

definition engineWith :: "NetworkRequest list \<Rightarrow> PatternEngine" where
  "engineWith reqs =
     \<lparr>options = defaultOptions,
      currentSequence = reqs, isRunning = True, actionCache = [],
      patternAnalysisTimer = False, timerPending = False, notified = []\<rparr>"




definition pageRequest :: "string \<Rightarrow> string \<Rightarrow> CellRequest" where
  "pageRequest i u =
     \<lparr>creq_id = i, creq_url = u, creq_method = ''GET'', creq_timestamp = 1700000000000,
      creq_signature = ''GET:'' @ u\<rparr>"

definition historyABC :: Storage where
  "historyABC =
     \<lparr>request_history = [getRequest ''a'' ''/a'' 0, getRequest ''b'' ''/b'' 0, getRequest ''c'' ''/c'' 0],
      pattern_store = [(''a,b'', 5)], workflow_store = [], action_store = []\<rparr>"

definition windowXAB :: PatternEngine where
  "windowXAB =
     engineWith [getRequest ''x'' ''/x'' 1000, getRequest ''a'' ''/a'' 1000, getRequest ''b'' ''/b'' 1000]"



definition longerToken :: Storage where
  "longerToken =
     \<lparr>request_history =
        [getRequest ''bc'' ''/bc'' 10, getRequest ''d'' ''/d'' 20, getRequest ''x'' ''/x'' 1000,
         getRequest ''a'' ''/a'' 1000, getRequest ''b'' ''/b'' 1000],
      pattern_store = [(''a,bc,d'', 10)],
      workflow_store = [], action_store = []\<rparr>"





definition fuzzyLog :: Storage where
  "fuzzyLog =
     \<lparr>request_history =
        [getRequest ''u1'' ''/users/1'' 10, getRequest ''o'' ''/orders'' 20,
         getRequest ''x'' ''/x'' 30, getRequest ''u2'' ''/users/2'' 40],
      pattern_store = [], workflow_store = [], action_store = []\<rparr>"


section \<open>Workflow recording: properties\<close>

lemma map_of_update_same: "map_of (AList.update k v al) k = Some v"
  by (simp add: update_conv)

text \<open>
  Claim C7. Stopping while idle, or with fewer than two accumulated actions, returns no
  workflow and leaves the persisted workflows (and the in-memory table) as they were.
  Stopping a recording that accumulated exactly the two actions \<open>a\<close>, \<open>b\<close>, in this
  order, returns a workflow whose action list is \<open>[a, b]\<close> and whose frequency is 1, and
  that workflow is then the persisted entry under its identifier. Starting from idle,
  \<open>startDetection\<close> followed by \<open>addAction a\<close> and \<open>addAction b\<close> accumulates exactly
  \<open>[a, b]\<close>.
\<close>

theorem stopDetection_two_actions:
  "(\<not> detectingWorkflow wa \<or> length (currentWorkflow wa) < 2 \<longrightarrow>
      fst (stopDetection newId now (st, wa)) = None \<and>
      fst (snd (stopDetection newId now (st, wa))) = st \<and>
      workflows (snd (snd (stopDetection newId now (st, wa)))) = workflows wa \<and>
      \<not> detectingWorkflow (snd (snd (stopDetection newId now (st, wa))))) \<and>
   (detectingWorkflow wa \<and> currentWorkflow wa = [a, b] \<longrightarrow>
      (case stopDetection newId now (st, wa) of
         (r, st', wa') \<Rightarrow>
           \<exists>w. r = Some w \<and> wf_actions w = [a, b] \<and> wf_frequency w = 1 \<and>
               wf_id w = newId \<and>
               getWorkflowById st' newId = Some w \<and> map_of (workflows wa') newId = Some w \<and>
               \<not> detectingWorkflow wa')) \<and>
   (\<not> detectingWorkflow wa \<longrightarrow>
      detectingWorkflow (addAction b (addAction a (startDetection wa))) \<and>
      currentWorkflow (addAction b (addAction a (startDetection wa))) = [a, b])"
  by (auto simp: stopDetection_def startDetection_def addAction_def createWorkflow_def
      saveWorkflow_def saveWorkflow_storage_def getWorkflowById_def Let_def map_of_update_same)

theorem stopDetection_two_actions_witness:
  "\<not> detectingWorkflow idleAutomation \<and>
   fst (stopDetection ''w1'' 1000 (emptyStorage, idleAutomation)) = None \<and>
   detectingWorkflow (addAction (apiAction ''b'' ''/b'')
      (addAction (apiAction ''a'' ''/a'') (startDetection idleAutomation))) \<and>
   currentWorkflow (addAction (apiAction ''b'' ''/b'')
      (addAction (apiAction ''a'' ''/a'') (startDetection idleAutomation)))
     = [apiAction ''a'' ''/a'', apiAction ''b'' ''/b''] \<and>
   map_option wf_actions
     (fst (stopDetection ''w1'' 1000
        (emptyStorage,
         addAction (apiAction ''b'' ''/b'') (addAction (apiAction ''a'' ''/a'') (startDetection idleAutomation)))))
     = Some [apiAction ''a'' ''/a'', apiAction ''b'' ''/b''] \<and>
   map_option wf_frequency
     (fst (stopDetection ''w1'' 1000
        (emptyStorage,
         addAction (apiAction ''b'' ''/b'') (addAction (apiAction ''a'' ''/a'') (startDetection idleAutomation)))))
     = Some 1"
  using stopDetection_two_actions [where wa = idleAutomation and newId = "''w1''" and now = 1000
      and st = emptyStorage and a = "apiAction ''a'' ''/a''" and b = "apiAction ''b'' ''/b''"]
    stopDetection_two_actions [where
      wa = "addAction (apiAction ''b'' ''/b'') (addAction (apiAction ''a'' ''/a'') (startDetection idleAutomation))"
      and newId = "''w1''" and now = 1000
      and st = emptyStorage and a = "apiAction ''a'' ''/a''" and b = "apiAction ''b'' ''/b''"]
  by (auto simp: idleAutomation_def)

section \<open>Pattern engine: the running flag\<close>

text \<open>
  Claim C10. While the engine is not running, \<open>addRequest\<close> returns the storage and the
  engine exactly as they were: the current sequence, the request history, the pattern
  store, the action cache, the delivered predictions and the timer fields are all
  components of that pair. This is the case for any engine whose flag is off, hence after
  \<open>stop\<close> and for the engine as constructed, before any \<open>start\<close>.
\<close>

theorem addRequest_not_running:
  "(\<not> isRunning eng \<longrightarrow> addRequest now request (st, eng) = (st, eng)) \<and>
   addRequest now request (st, stop eng) = (st, stop eng) \<and>
   addRequest now request (st, newPatternEngine opts st0) = (st, newPatternEngine opts st0)"
  by (simp add: addRequest_def stop_def newPatternEngine_def Let_def)

theorem addRequest_not_running_witness:
  "\<not> isRunning (newPatternEngine defaultOptions emptyStorage) \<and>
   addRequest 5 (getRequest ''a'' ''/a'' 5) (emptyStorage, newPatternEngine defaultOptions emptyStorage)
   = (emptyStorage, newPatternEngine defaultOptions emptyStorage)"
  using addRequest_not_running [where eng = "newPatternEngine defaultOptions emptyStorage"
      and now = 5 and request = "getRequest ''a'' ''/a'' 5" and st = emptyStorage]
  by (simp add: newPatternEngine_def)

section \<open>Confidence of an exact match\<close>

lemma foldl_plus_sum_list:
  "foldl (\<lambda>sum time. sum + time) a xs = a + sum_list (xs :: real list)"
  by (induction xs arbitrary: a) auto

text \<open>
  When no request of the window is stamped later than the clock reading, the recency
  factor and the confidence are between 0 and 1.
\<close>

lemma calculateRecencyFactor_range:
  assumes "\<forall>r \<in> set (currentSequence eng). req_timestamp r \<le> now"
  shows "0 \<le> calculateRecencyFactor now eng \<and> calculateRecencyFactor now eng \<le> 1"
proof (cases "currentSequence eng = []")
  case True
  then show ?thesis by (simp add: calculateRecencyFactor_def)
next
  case False
  let ?ts = "map req_timestamp (currentSequence eng)"
  have fl: "foldl (\<lambda>sum time. sum + time) 0 ?ts = sum_list ?ts"
    by (simp add: foldl_plus_sum_list)
  have "sum_list ?ts \<le> sum_list (map (\<lambda>r. now) (currentSequence eng))"
    using assms by (intro sum_list_mono) auto
  also have "\<dots> = real (length (currentSequence eng)) * now"
    by (simp add: sum_list_triv)
  finally have "sum_list ?ts / real (length (currentSequence eng)) \<le> now"
    using False by (simp add: field_simps)
  then show ?thesis
    using False by (simp add: calculateRecencyFactor_def Let_def fl)
qed

lemma calculateConfidence_range:
  assumes "\<forall>r \<in> set (currentSequence eng). req_timestamp r \<le> now"
  shows "0 \<le> calculateConfidence now eng pattern frequency \<and>
         calculateConfidence now eng pattern frequency \<le> 1"
proof -
  from calculateRecencyFactor_range [OF assms]
  have r: "0 \<le> calculateRecencyFactor now eng" "calculateRecencyFactor now eng \<le> 1" by auto
  have f: "0 \<le> min (real frequency / 10) 1" "min (real frequency / 10) 1 \<le> 1" by auto
  have l: "0 \<le> min (real (length (split pattern)) / 10) 1"
    "min (real (length (split pattern)) / 10) 1 \<le> 1" by auto
  show ?thesis
    unfolding calculateConfidence_def Let_def using r f l by linarith
qed

text \<open>
  Claim C3. The confidence is documented to lie in \<open>[0, 1]\<close> for every frequency, token
  count and time difference. The code does not keep this when the window is stamped later
  than the clock reading: for a ten-token key seen ten times and a window stamped one hour
  ahead of \<open>Date.now()\<close>, the value is \<open>0.9 + 0.1 * exp 1\<close>, above 1.
\<close>

theorem calculateConfidence_above_one:
  "calculateConfidence 1700000000000
     (engineWith [getRequest ''a'' ''/a'' 1700003600000, getRequest ''b'' ''/b'' 1700003600000])
     ''a,b,c,d,e,f,g,h,i,j'' 10 > 1"
proof -
  have e: "1 < exp (1::real)" by simp
  have "calculateConfidence 1700000000000
     (engineWith [getRequest ''a'' ''/a'' 1700003600000, getRequest ''b'' ''/b'' 1700003600000])
     ''a,b,c,d,e,f,g,h,i,j'' 10 = 9 / 10 + exp 1 / 10"
    by (simp add: calculateConfidence_def calculateRecencyFactor_def engineWith_def
        getRequest_def Let_def)
  with e show ?thesis by linarith
qed

section \<open>Workflow replay: properties\<close>







section \<open>Repetition watcher: properties\<close>

lemma check_fresh:
  assumes "creq_url a \<noteq> []" "creq_url b \<noteq> []" "creq_signature a \<noteq> creq_signature b"
    and "map_of p (pairKey a b) = None"
  shows "\<exists>p'. checkForRepetitivePatterns now a b p = (p', None) \<and>
              map_of p' (pairKey a b) = Some (Repetition 1 0 3 [a, b])"
  using assms
  by (simp add: checkForRepetitivePatterns_def pairKey_def Let_def update_conv)

lemma check_counted:
  assumes "creq_url a \<noteq> []" "creq_url b \<noteq> []" "creq_signature a \<noteq> creq_signature b"
    and "map_of p (pairKey a b) = Some (Repetition c l t s)"
  shows "\<exists>p'. checkForRepetitivePatterns now a b p =
                (p', if t \<le> c + 1 \<and> 3600000 < now - l then Some (a, b, c + 1) else None) \<and>
              map_of p' (pairKey a b) =
                Some (Repetition (c + 1) (if t \<le> c + 1 \<and> 3600000 < now - l then now else l) t s)"
  using assms
  by (simp add: checkForRepetitivePatterns_def pairKey_def Let_def update_conv)

lemma check_cooldown:
  assumes "creq_url a \<noteq> []" "creq_url b \<noteq> []" "creq_signature a \<noteq> creq_signature b"
    and "map_of p (pairKey a b) = Some (Repetition c l t s)"
    and "\<forall>now \<in> set ts. now - l \<le> 3600000"
  shows "recurrences a b ts p = replicate (length ts) None"
  using assms(4,5)
proof (induction ts arbitrary: p c)
  case Nil
  then show ?case by simp
next
  case (Cons now ts)
  from check_counted [OF assms(1-3) Cons.prems(1), of now] Cons.prems(2)
  obtain p' where step: "checkForRepetitivePatterns now a b p = (p', None)"
    and m: "map_of p' (pairKey a b) = Some (Repetition (c + 1) l t s)"
    by auto
  from Cons.IH [OF m] Cons.prems(2) step show ?case
    by simp
qed

text \<open>A call for another pair leaves the counter of this pair as it is.\<close>

lemma check_other_pair:
  assumes "pairKey current next \<noteq> k"
  shows "map_of (fst (checkForRepetitivePatterns now current next p)) k = map_of p k"
  using assms
  by (simp add: checkForRepetitivePatterns_def pairKey_def Let_def update_conv
      split: option.splits PatternEntry.splits)

text \<open>
  Claim C6. Take two requests with non-empty urls and distinct signatures whose pair has
  no counter yet, and let the pair recur at the clock readings \<open>t1\<close>, \<open>t2\<close>, \<open>t3\<close>
  and then at any further readings, none of them more than 3,600,000 ms after \<open>t3\<close>.
  Nothing is suggested at counts 1 and 2, the suggestion \<open>(a, b, 3)\<close> is made at count 3,
  and nothing is suggested at any of the further recurrences. The counter starts with
  \<open>lastSuggested = 0\<close>, so the clock must read more than 3,600,000 ms past the epoch.
\<close>

theorem suggestion_once_at_three:
  assumes "creq_url a \<noteq> []" "creq_url b \<noteq> []" "creq_signature a \<noteq> creq_signature b"
    and "map_of p (pairKey a b) = None"
    and "3600000 < t3"
    and "\<forall>now \<in> set later. now - t3 \<le> 3600000"
  shows "recurrences a b (t1 # t2 # t3 # later) p =
           [None, None, Some (a, b, 3)] @ replicate (length later) None"
proof -
  from check_fresh [OF assms(1-4), of t1]
  obtain p1 where s1: "checkForRepetitivePatterns t1 a b p = (p1, None)"
    and m1: "map_of p1 (pairKey a b) = Some (Repetition 1 0 3 [a, b])"
    by auto
  from check_counted [OF assms(1-3) m1, of t2]
  obtain p2 where s2: "checkForRepetitivePatterns t2 a b p1 = (p2, None)"
    and m2: "map_of p2 (pairKey a b) = Some (Repetition 2 0 3 [a, b])"
    by auto
  from check_counted [OF assms(1-3) m2, of t3] assms(5)
  obtain p3 where s3: "checkForRepetitivePatterns t3 a b p2 = (p3, Some (a, b, 3))"
    and m3: "map_of p3 (pairKey a b) = Some (Repetition 3 t3 3 [a, b])"
    by auto
  have "recurrences a b later p3 = replicate (length later) None"
    by (rule check_cooldown [OF assms(1-3) m3 assms(6)])
  with s1 s2 s3 show ?thesis by simp
qed

theorem suggestion_once_at_three_witness:
  "recurrences (pageRequest ''1'' ''https://x/a'') (pageRequest ''2'' ''https://x/b'')
     [1700000000000, 1700000010000, 1700000020000, 1700000030000, 1700003620000] []
   = [None, None, Some (pageRequest ''1'' ''https://x/a'', pageRequest ''2'' ''https://x/b'', 3), None, None]"
  using suggestion_once_at_three [where a = "pageRequest ''1'' ''https://x/a''"
      and b = "pageRequest ''2'' ''https://x/b''" and p = "[]" and ?t1.0 = 1700000000000
      and ?t2.0 = 1700000010000 and ?t3.0 = 1700000020000 and later = "[1700000030000, 1700003620000]"]
  by (simp add: pageRequest_def)

section \<open>Pattern store rebuild: properties\<close>

lemma join_split: "join (split s) = s"
proof (induction s)
  case Nil
  then show ?case by simp
next
  case (Cons c s)
  then show ?case
    by (cases "split s"; cases "tl (split s)") (auto split: list.splits)
qed

lemma storedCount_bump:
  "storedCount (bump k' t) k = storedCount t k + (if k = k' then 1 else 0)"
  by (simp add: storedCount_def bump_def update_conv split: option.splits)

lemma distinct_bump: "distinct (map fst t) \<Longrightarrow> distinct (map fst (bump k t))"
  by (simp add: bump_def distinct_update split: option.splits)

lemma storedCount_fold_bump:
  "storedCount (fold (\<lambda>i t. bump (f i) t) is t) k =
     storedCount t k + length (filter (\<lambda>i. f i = k) is)"
  by (induction "is" arbitrary: t) (auto simp: storedCount_bump)

lemma distinct_fold_bump:
  "distinct (map fst t) \<Longrightarrow> distinct (map fst (fold (\<lambda>i t. bump (f i) t) is t))"
  by (induction "is" arbitrary: t) (auto simp: distinct_bump)

lemma storedCount_fold_fold_bump:
  "storedCount (fold (\<lambda>n t. fold (\<lambda>i t. bump (f n i) t) (g n) t) ns t) k =
     storedCount t k + sum_list (map (\<lambda>n. length (filter (\<lambda>i. f n i = k) (g n))) ns)"
  by (induction ns arbitrary: t) (auto simp: storedCount_fold_bump)

lemma distinct_fold_fold_bump:
  "distinct (map fst t) \<Longrightarrow>
   distinct (map fst (fold (\<lambda>n t. fold (\<lambda>i t. bump (f n i) t) (g n) t) ns t))"
  by (induction ns arbitrary: t) (auto simp: distinct_fold_bump)

lemma window_range:
  "(if n \<le> length h then [0..<length h - n + 1] else []) = [0..<length h + 1 - n]"
  by (auto simp: Suc_diff_le)

lemma storedCount_tallyWindows:
  "storedCount (tallyWindows history maxLen) k = occurrences history maxLen k"
proof -
  have "storedCount (tallyWindows history maxLen) k =
          storedCount [] k +
          sum_list (map (\<lambda>n. length (filter (\<lambda>i. windowKey history i n = k)
                                         [0..<length history + 1 - n]))
                        [2..<maxLen + 1])"
    unfolding tallyWindows_def window_range
    by (rule storedCount_fold_fold_bump)
  then show ?thesis
    by (simp only: occurrences_def storedCount_def map_of.simps option.case add_0)
qed

lemma distinct_tallyWindows: "distinct (map fst (tallyWindows history maxLen))"
  unfolding tallyWindows_def
  by (rule distinct_fold_fold_bump [where f = "\<lambda>n i. windowKey history i n"]) simp

lemma map_of_savePattern:
  "map_of (pattern_store (savePattern (split p) c st)) k =
     (if k = p then Some (storedCount (pattern_store st) p + c) else map_of (pattern_store st) k)"
  by (simp add: savePattern_def join_split Let_def update_conv storedCount_def split: option.splits)

lemma history_savePattern: "request_history (savePattern ks c st) = request_history st"
  by (simp add: savePattern_def Let_def)

lemma map_of_save_all:
  "distinct (map fst t) \<Longrightarrow>
   map_of (pattern_store (fold (\<lambda>(pattern, c) st. savePattern (split pattern) c st) t st)) k =
     (case map_of t k of
        None \<Rightarrow> map_of (pattern_store st) k
      | Some c \<Rightarrow> Some (storedCount (pattern_store st) k + c))"
proof (induction t arbitrary: st)
  case Nil
  then show ?case by simp
next
  case (Cons e t)
  obtain p c where e: "e = (p, c)" by (cases e)
  from Cons.prems e have d: "distinct (map fst t)" and np: "map_of t p = None"
    by (auto simp: map_of_eq_None_iff)
  show ?case
    using Cons.IH [OF d, of "savePattern (split p) c st"] np
    by (auto simp: e map_of_savePattern storedCount_def split: option.splits)
qed

lemma history_save_all:
  "request_history (fold (\<lambda>(pattern, c) st. savePattern (split pattern) c st) t st) =
     request_history st"
  by (induction t arbitrary: st) (auto simp: history_savePattern)

lemma analyze_history:
  "request_history (analyzeHistoricalPatterns (st, eng)) = request_history st"
  by (simp add: analyzeHistoricalPatterns_def Let_def history_save_all)

lemma analyze_count:
  assumes "map_of (pattern_store st) k = Some c"
  shows "map_of (pattern_store (analyzeHistoricalPatterns (st, eng))) k =
           Some (c + (if isRunning eng
                      then occurrences (request_history st)
                             (or_default (maxPatternLength (options eng)) 10) k
                      else 0))"
proof (cases "isRunning eng")
  case False
  with assms show ?thesis by (simp add: analyzeHistoricalPatterns_def)
next
  case True
  let ?t = "tallyWindows (request_history st) (or_default (maxPatternLength (options eng)) 10)"
  have "storedCount ?t k = occurrences (request_history st)
          (or_default (maxPatternLength (options eng)) 10) k"
    by (rule storedCount_tallyWindows)
  then show ?thesis
    using True assms map_of_save_all [OF distinct_tallyWindows, of "request_history st"
        "or_default (maxPatternLength (options eng)) 10" st k]
    by (auto simp: analyzeHistoricalPatterns_def Let_def storedCount_def split: option.splits)
qed

text \<open>
  Claim C4. A key stored with count \<open>c\<close> is stored, after one run of the rebuild, with
  \<open>c\<close> plus the number of occurrences of the key found in that pass (no pass is made, and
  the count stays, when the engine is not running); so the count never decreases. A second
  run over the same history adds the same number again.
\<close>

theorem rebuild_adds_occurrences:
  assumes "map_of (pattern_store st) k = Some c"
  shows "map_of (pattern_store (analyzeHistoricalPatterns (st, eng))) k =
           Some (c + (if isRunning eng
                      then occurrences (request_history st)
                             (or_default (maxPatternLength (options eng)) 10) k
                      else 0)) \<and>
         map_of (pattern_store (analyzeHistoricalPatterns (analyzeHistoricalPatterns (st, eng), eng))) k =
           Some (c + 2 * (if isRunning eng
                          then occurrences (request_history st)
                                 (or_default (maxPatternLength (options eng)) 10) k
                          else 0))"
  using analyze_count [OF assms, of eng]
    analyze_count [OF analyze_count [OF assms, of eng], of eng]
  by (simp add: analyze_history)

theorem rebuild_adds_occurrences_witness:
  "map_of (pattern_store historyABC) ''a,b'' = Some 5 \<and>
   map_of (pattern_store (analyzeHistoricalPatterns (historyABC, engineWith []))) ''a,b'' = Some 6 \<and>
   map_of (pattern_store (analyzeHistoricalPatterns
              (analyzeHistoricalPatterns (historyABC, engineWith []), engineWith []))) ''a,b'' = Some 7"
proof -
  have h: "map_of (pattern_store historyABC) ''a,b'' = Some 5"
    by (simp add: historyABC_def)
  have o: "occurrences (request_history historyABC) 10 ''a,b'' = 1"
    by code_simp
  have r: "isRunning (engineWith [])" "or_default (maxPatternLength (options (engineWith []))) 10 = 10"
    by (simp_all add: engineWith_def defaultOptions_def or_default_def)
  from rebuild_adds_occurrences [OF h, of "engineWith []"] h o r show ?thesis
    by simp
qed

section \<open>Exact n-gram prediction: properties\<close>






lemma recency_windowXAB: "calculateRecencyFactor 1000 windowXAB = 1"
  by (simp add: calculateRecencyFactor_def windowXAB_def engineWith_def getRequest_def Let_def)



lemma confidence_abcd: "calculateConfidence 1000 windowXAB ''a,bc,d'' 10 = 79 / 100"
  by (simp add: calculateConfidence_def recency_windowXAB Let_def)

lemma cache_windowXAB: "actionCache windowXAB = [] \<and> notified windowXAB = []"
  by (simp add: windowXAB_def engineWith_def)


lemma window_windowXAB:
  "length (currentSequence windowXAB) = 3 \<and>
   map req_id (currentSequence windowXAB) = [''x'', ''a'', ''b''] \<and>
   or_default (maxPatternLength (options windowXAB)) 10 = 10"
  by (simp add: windowXAB_def engineWith_def getRequest_def defaultOptions_def or_default_def)




lemma scan_longerToken:
  "map_option (act_id \<circ> pred_action \<circ> fst)
     (scanPatterns 1000 2 ''a,b'' (longerToken, windowXAB) (pattern_store longerToken))
   = Some ''d'' \<and>
   map_option (notified \<circ> snd \<circ> snd)
     (scanPatterns 1000 2 ''a,b'' (longerToken, windowXAB) (pattern_store longerToken))
   = Some []"
  by (simp add: longerToken_def confidence_abcd createPrediction_def nth_opt_def
      cache_windowXAB property_key_def getRequest_def Let_def)

text \<open>
  Claim C2. The key of a prediction is meant to continue the window: its tokens should
  begin with the last ids of the window, the predicted id being the next token. The code
  compares the joined strings, not the token sequences. With the window ids \<open>x, a, b\<close> and
  the stored key \<open>a,bc,d\<close>, the lookup key \<open>a,b\<close> is a proper prefix of the stored string,
  and the engine predicts \<open>d\<close>, although the tokens \<open>a, bc, d\<close> of that key do not begin
  with \<open>a, b\<close> and \<open>d\<close> does not follow the matched prefix (what follows it is \<open>c,d\<close>).
\<close>

theorem prediction_from_unaligned_key:
  "slice_last 2 (map req_id (currentSequence windowXAB)) = [''a'', ''b''] \<and>
   split ''a,bc,d'' = [''a'', ''bc'', ''d''] \<and>
   prefix [''a'', ''b''] (split ''a,bc,d'') = False \<and>
   drop (length ''a,b'') ''a,bc,d'' = ''c,d'' \<and>
   map_option (act_id \<circ> pred_action \<circ> fst)
     (scanPatterns 1000 2 ''a,b'' (longerToken, windowXAB) (pattern_store longerToken))
     = Some ''d'' \<and>
   map (act_id \<circ> pred_action) (notified (snd (predictNextAction 1000 (longerToken, windowXAB))))
     = [''d'']"
proof -
  have s: "searchPatterns 1000 (longerToken, windowXAB) (pattern_store longerToken)
             [''x'', ''a'', ''b''] 2 =
           scanPatterns 1000 2 ''a,b'' (longerToken, windowXAB) (pattern_store longerToken)"
    using scan_longerToken
    by (subst searchPatterns.simps) (auto simp: slice_last_def split: option.splits)
  have "map (act_id \<circ> pred_action)
          (notified (snd (predictNextAction 1000 (longerToken, windowXAB)))) = [''d'']"
    using scan_longerToken
    by (auto simp: predictNextAction_def window_windowXAB s Let_def notifyPredictionCallbacks_def
        split: option.splits)
  with scan_longerToken show ?thesis
    by (simp add: window_windowXAB slice_last_def)
qed

section \<open>String similarity: properties\<close>

lemma fold_upt_invariant:
  assumes "P lo m"
    and "\<And>i m. lo \<le> i \<Longrightarrow> i < hi \<Longrightarrow> P i m \<Longrightarrow> P (Suc i) (f i m)"
    and "lo \<le> hi"
  shows "P hi (fold f [lo..<hi] m)"
proof -
  have "lo \<le> k \<Longrightarrow> k \<le> hi \<Longrightarrow> P k (fold f [lo..<k] m)" for k
  proof (induction k)
    case 0
    with assms(1) show ?case by simp
  next
    case (Suc k)
    show ?case
    proof (cases "lo = Suc k")
      case True
      with assms(1) show ?thesis by simp
    next
      case False
      with Suc.prems have lk: "lo \<le> k" "k < hi" by simp_all
      with Suc.IH have "P k (fold f [lo..<k] m)" by simp
      from assms(2) [OF lk this] lk show ?thesis by simp
    qed
  qed
  with assms(3) show ?thesis by simp
qed

lemma matrix_set_length: "length (matrix_set m i j v) = length m"
  by (simp add: matrix_set_def)

lemma matrix_set_row_length: "length (matrix_set m i j v ! r) = length (m ! r)"
  by (cases "i < length m"; cases "r = i") (simp_all add: matrix_set_def list_update_beyond)

lemma matrix_set_nth:
  "i < length m \<Longrightarrow> j < length (m ! i) \<Longrightarrow>
   matrix_set m i j v ! r ! c = (if r = i \<and> c = j then v else m ! r ! c)"
  by (cases "r = i"; cases "c = j") (simp_all add: matrix_set_def)

lemma distance_zero_right: "distance a b i 0 = i"
  by (cases i) simp_all

lemma shaped_matrix_set: "shaped a b m \<Longrightarrow> shaped a b (matrix_set m i j v)"
  by (simp add: shaped_def matrix_set_length matrix_set_row_length)

lemma first_column:
  fixes a b :: "'c list"
  defines "m0 \<equiv> replicate (length a + 1) (replicate (length b + 1) (0::nat))"
  shows "shaped a b (fold (\<lambda>i m. matrix_set m i 0 i) [0..<length a + 1] m0) \<and>
         (\<forall>r. r \<le> length a \<longrightarrow> fold (\<lambda>i m. matrix_set m i 0 i) [0..<length a + 1] m0 ! r ! 0 = r)"
proof -
  let ?P = "\<lambda>i m. shaped a b m \<and> (\<forall>r. r < i \<longrightarrow> m ! r ! 0 = r)"
  have "?P (length a + 1) (fold (\<lambda>i m. matrix_set m i 0 i) [0..<length a + 1] m0)"
  proof (rule fold_upt_invariant [where P = ?P])
    have "length (m0 ! r) = length b + 1" if "r \<le> length a" for r
      using that nth_replicate [of r "length a + 1" "replicate (length b + 1) (0::nat)"]
      by (simp add: m0_def)
    then show "?P 0 m0" by (simp add: shaped_def m0_def)
  next
    fix i m assume "i < length a + 1" and p: "?P i m"
    then have "i < length m" "0 < length (m ! i)" by (auto simp: shaped_def)
    with p show "?P (Suc i) (matrix_set m i 0 i)"
      by (auto simp: shaped_matrix_set matrix_set_nth less_Suc_eq)
  qed simp
  then show ?thesis by auto
qed

lemma first_row:
  assumes "shaped a b m1" and "\<forall>r. r \<le> length a \<longrightarrow> m1 ! r ! 0 = r"
  shows "filled a b 1 1 (fold (\<lambda>j m. matrix_set m 0 j j) [0..<length b + 1] m1)"
proof -
  let ?P = "\<lambda>j m. shaped a b m \<and> (\<forall>r. r \<le> length a \<longrightarrow> m ! r ! 0 = r) \<and>
                   (\<forall>c. c < j \<longrightarrow> m ! 0 ! c = c)"
  have "?P (length b + 1) (fold (\<lambda>j m. matrix_set m 0 j j) [0..<length b + 1] m1)"
  proof (rule fold_upt_invariant [where P = ?P])
    show "?P 0 m1" using assms by simp
  next
    fix j m assume "j < length b + 1" and p: "?P j m"
    then have "0 < length m" "j < length (m ! 0)" by (auto simp: shaped_def)
    with p show "?P (Suc j) (matrix_set m 0 j j)"
      by (auto simp: shaped_matrix_set matrix_set_nth less_Suc_eq)
  qed simp
  then show ?thesis
    by (auto simp: filled_def shaped_def distance_zero_right)
qed

lemma fill_cell_step:
  assumes "filled a b i j m" and "1 \<le> i" "i \<le> length a" "1 \<le> j" "j \<le> length b"
  shows "filled a b i (Suc j) (fill_cell a b i j m)"
proof -
  obtain i' j' where ij: "i = Suc i'" "j = Suc j'"
    using assms(2,4) by (cases i; cases j) auto
  from assms have len: "i < length m" "j < length (m ! i)"
    by (auto simp: filled_def)
  from assms ij have up: "m ! i' ! j = distance a b i' j"
    and left: "m ! i ! j' = distance a b i j'"
    and diag: "m ! i' ! j' = distance a b i' j'"
    by (auto simp: filled_def)
  have v: "fill_cell a b i j m = matrix_set m i j (distance a b i j)"
    using up left diag by (simp add: fill_cell_def ij Let_def)
  show ?thesis
    using assms(1) len unfolding v filled_def
    by (auto simp: matrix_set_length matrix_set_row_length matrix_set_nth)
qed

lemma fill_row:
  assumes "filled a b i 1 m" and "1 \<le> i" "i \<le> length a"
  shows "filled a b (Suc i) 1 (fold (\<lambda>j m. fill_cell a b i j m) [1..<length b + 1] m)"
proof -
  let ?M = "fold (\<lambda>j m. fill_cell a b i j m) [1..<length b + 1] m"
  have "filled a b i (length b + 1) ?M"
  proof (rule fold_upt_invariant [where P = "filled a b i"])
    show "filled a b i 1 m" by fact
  next
    fix j m' assume "1 \<le> j" "j < length b + 1" "filled a b i j m'"
    with assms(2,3) show "filled a b i (Suc j) (fill_cell a b i j m')"
      by (intro fill_cell_step) simp_all
  qed simp
  then have A: "length ?M = length a + 1"
    and B: "\<And>r. r \<le> length a \<Longrightarrow> length (?M ! r) = length b + 1"
    and C: "\<And>r c. r \<le> length a \<Longrightarrow> c \<le> length b \<Longrightarrow>
              r = 0 \<or> c = 0 \<or> r < i \<or> (r = i \<and> c < length b + 1) \<Longrightarrow>
              ?M ! r ! c = distance a b r c"
    by (auto simp: filled_def)
  have "?M ! r ! c = distance a b r c"
    if "r \<le> length a" "c \<le> length b" "r = 0 \<or> c = 0 \<or> r < Suc i \<or> (r = Suc i \<and> c < 1)" for r c
  proof -
    from that have "r = 0 \<or> c = 0 \<or> r < i \<or> (r = i \<and> c < length b + 1)" by auto
    with that(1,2) show ?thesis by (rule C)
  qed
  with A B show ?thesis
    by (simp add: filled_def)
qed

lemma levenshtein_matrix_filled:
  "filled a b (length a + 1) 1 (levenshtein_matrix a b)"
proof -
  let ?m1 = "fold (\<lambda>i m. matrix_set m i 0 i) [0..<length a + 1]
               (replicate (length a + 1) (replicate (length b + 1) 0))"
  let ?m2 = "fold (\<lambda>j m. matrix_set m 0 j j) [0..<length b + 1] ?m1"
  have m2: "filled a b 1 1 ?m2"
    using first_column [of a b] by (intro first_row) auto
  have "filled a b (length a + 1)  1
          (fold (\<lambda>i m. fold (\<lambda>j m. fill_cell a b i j m) [1..<length b + 1] m) [1..<length a + 1] ?m2)"
  proof (rule fold_upt_invariant [where P = "\<lambda>i. filled a b i 1"])
    show "filled a b 1 1 ?m2" by (rule m2)
  next
    fix i m assume "1 \<le> i" "i < length a + 1" "filled a b i 1 m"
    then show "filled a b (Suc i) 1 (fold (\<lambda>j m. fill_cell a b i j m) [1..<length b + 1] m)"
      by (intro fill_row) simp_all
  qed simp
  then show ?thesis
    by (simp add: levenshtein_matrix_def Let_def)
qed

lemma levenshtein_matrix_distance:
  "levenshtein_matrix a b ! length a ! length b = distance a b (length a) (length b)"
  using levenshtein_matrix_filled [of a b] by (simp add: filled_def)

lemma distance_sym: "distance a b i j = distance b a j i"
proof (induction a b i j rule: distance.induct)
  case (1 a b j)
  then show ?case by (simp add: distance_zero_right)
next
  case (2 a b i)
  then show ?case by simp
next
  case (3 a b i j)
  have "(a ! i = b ! j) = (b ! j = a ! i)" by auto
  with 3 show ?case by (simp add: min.commute min.left_commute)
qed

lemma distance_le_max: "distance a b i j \<le> max i j"
proof (induction a b i j rule: distance.induct)
  case (3 a b i j)
  have "distance a b (Suc i) (Suc j) \<le> distance a b i j + (if a ! i = b ! j then 0 else 1)"
    by simp
  also have "\<dots> \<le> max i j + 1" using 3(3) by simp
  finally show ?case by simp
qed simp_all

lemma distance_zero:
  "i \<le> length a \<Longrightarrow> j \<le> length b \<Longrightarrow> distance a b i j = 0 \<Longrightarrow> i = j \<and> take i a = take j b"
proof (induction a b i j rule: distance.induct)
  case (3 a b i j)
  from 3(6) have z: "distance a b i j = 0" and eq: "a ! i = b ! j"
    by (auto simp: min_def split: if_splits)
  from 3(4,5) have "i \<le> length a" "j \<le> length b" by simp_all
  from 3(3) [OF this z] have ij: "i = j" "take i a = take j b" by auto
  from 3(4,5) ij(1) have "take (Suc i) a = take i a @ [a ! i]" "take (Suc j) b = take j b @ [b ! j]"
    by (simp_all add: take_Suc_conv_app_nth)
  with ij eq show ?case by simp
qed simp_all

text \<open>
  Claim C9. For all strings, the similarity lies between 0 and 1, does not depend on the
  order of its arguments, and is 1 exactly for equal strings.
\<close>

theorem stringSimilarity_properties:
  "0 \<le> stringSimilarity a b \<and> stringSimilarity a b \<le> 1 \<and>
   stringSimilarity a b = stringSimilarity b a \<and>
   (stringSimilarity a b = 1) = (a = b)"
proof (cases "a = b \<or> a = [] \<or> b = []")
  case True
  then show ?thesis by (auto simp: stringSimilarity_def)
next
  case False
  let ?d = "distance a b (length a) (length b)"
  let ?n = "max (length a) (length b)"
  from False have n: "0 < ?n" by (simp add: less_max_iff_disj)
  have s: "stringSimilarity a b = 1 - real ?d / real ?n"
    using False by (simp add: stringSimilarity_def levenshtein_matrix_distance)
  have s': "stringSimilarity b a = 1 - real ?d / real ?n"
    using False by (auto simp: stringSimilarity_def levenshtein_matrix_distance
        distance_sym [of b a] max.commute)
  have le: "real ?d \<le> real ?n"
    using distance_le_max [of a b "length a" "length b"] by simp
  have "?d \<noteq> 0"
    using distance_zero [of "length a" a "length b" b] False by auto
  then have pos: "0 < real ?d / real ?n" using n by simp
  have le1: "real ?d / real ?n \<le> 1" using le n by (simp add: divide_le_eq)
  have r: "0 \<le> stringSimilarity a b" "stringSimilarity a b \<le> 1" "stringSimilarity a b \<noteq> 1"
    using s pos le1 by linarith+
  from False have "a \<noteq> b" by simp
  with r s s' show ?thesis by simp
qed

section \<open>Fuzzy fallback: properties\<close>

lemma distance_refl: "i \<le> length a \<Longrightarrow> distance a a i i = 0"
  by (induction i) simp_all

lemma stringSimilarity_editSimilarity: "stringSimilarity a b = editSimilarity a b"
proof (cases "a = b")
  case True
  then show ?thesis
    by (simp add: stringSimilarity_def editSimilarity_def distance_refl)
next
  case False
  show ?thesis
  proof (cases "a = [] \<or> b = []")
    case True
    with False show ?thesis
      by (auto simp: stringSimilarity_def editSimilarity_def distance_zero_right)
  next
    case e: False
    with False show ?thesis
      by (simp add: stringSimilarity_def editSimilarity_def levenshtein_matrix_distance)
  qed
qed










lemma matrix_users:
  "levenshtein_matrix ''/users/1'' ''/users/2'' ! length ''/users/1'' ! length ''/users/2'' = 1"
  by code_simp
















lemma similarity_users:
  "stringSimilarity ''/users/1'' ''/users/2'' = 7 / 8"
  unfolding stringSimilarity_def matrix_users by simp






lemma keeps_totalSimilarity:
  "keeps lastRequest e = (req_id e \<noteq> req_id lastRequest \<and> totalSimilarity e lastRequest > 0.8)"
  by (auto simp: keeps_def totalSimilarity_def Let_def stringSimilarity_editSimilarity algebra_simps)

lemma totalSimilarity_getRequest:
  "totalSimilarity (getRequest i u t) (getRequest j v t') = stringSimilarity u v * 0.8 + 0.2"
  by (simp add: totalSimilarity_def getRequest_def Let_def)

lemma getRequest_id: "req_id (getRequest i u t) = i"
  by (simp add: getRequest_def)

lemma matrix_orders:
  "levenshtein_matrix ''/orders'' ''/users/2'' ! length ''/orders'' ! length ''/users/2'' = 5"
  by code_simp

lemma matrix_x:
  "levenshtein_matrix ''/x'' ''/users/2'' ! length ''/x'' ! length ''/users/2'' = 7"
  by code_simp

lemma matrix_pay:
  "levenshtein_matrix ''/pay'' ''/users/2'' ! length ''/pay'' ! length ''/users/2'' = 7"
  by code_simp

lemma matrix_users3:
  "levenshtein_matrix ''/users/3'' ''/users/2'' ! length ''/users/3'' ! length ''/users/2'' = 1"
  by code_simp

lemma similarity_others:
  "stringSimilarity ''/orders'' ''/users/2'' = 3 / 8"
  "stringSimilarity ''/x'' ''/users/2'' = 1 / 8"
  "stringSimilarity ''/pay'' ''/users/2'' = 1 / 8"
  "stringSimilarity ''/users/3'' ''/users/2'' = 7 / 8"
  unfolding stringSimilarity_def matrix_orders matrix_x matrix_pay matrix_users3 by simp_all

lemmas fuzzy_eval =
  keeps_totalSimilarity totalSimilarity_getRequest getRequest_id similarity_users similarity_others







lemma followerTally_fuzzyLog:
  "followerTally (request_history fuzzyLog) (getRequest ''u2'' ''/users/2'' 40) ''o'' = 1 \<and>
   followerTotal (request_history fuzzyLog) (getRequest ''u2'' ''/users/2'' 40) = 1"
  by (simp add: followerTally_def followerTotal_def fuzzyLog_def fuzzy_eval)











end
